theory Spec2Isabelle
  imports Main "HOL-Library.Word"
begin

section \<open>Strings of the host language\<close>

text \<open>
  A string of the program is a sequence of 16-bit code units. Literals of the source are
  written \<open>js ''...''\<close>: every character of an ASCII literal is one code unit.
\<close>

type_synonym code_unit = "16 word"
type_synonym jstring = "code_unit list"

definition js :: "string \<Rightarrow> jstring" where
  "js s = map (\<lambda>c. word_of_nat (of_char c)) s"

text \<open>
  \<open>String.prototype.trim\<close> removes white space and line terminators from both ends:
  TAB, LF, VT, FF, CR, SPACE, NBSP, U+1680, U+2000 to U+200A, U+2028, U+2029, U+202F,
  U+205F, U+3000 and U+FEFF.
\<close>

definition is_white_space :: "code_unit \<Rightarrow> bool" where
  "is_white_space c \<longleftrightarrow>
     c = 0x0009 \<or> c = 0x000A \<or> c = 0x000B \<or> c = 0x000C \<or> c = 0x000D \<or> c = 0x0020 \<or>
     c = 0x00A0 \<or> c = 0x1680 \<or> (0x2000 \<le> c \<and> c \<le> 0x200A) \<or> c = 0x2028 \<or>
     c = 0x2029 \<or> c = 0x202F \<or> c = 0x205F \<or> c = 0x3000 \<or> c = 0xFEFF"

definition trim :: "jstring \<Rightarrow> jstring" where
  "trim s = rev (dropWhile is_white_space (rev (dropWhile is_white_space s)))"

section \<open>Data model (types.ts)\<close>

record Stock =
  ticker :: jstring
  companyName :: jstring
  growthPotential :: jstring
  publicSentiment :: jstring

record Source =
  uri :: jstring
  title :: jstring

record GeminiStockResponse =
  stocks :: "Stock list"
  sources :: "Source list"

section \<open>Watchlist operations (App)\<close>

text \<open>
  The three callbacks on the watchlist. \<open>handleAddToWatchlist\<close> and
  \<open>handleRemoveFromWatchlist\<close> pass a function of the previous list to the state setter;
  the model is that function. \<open>Array.prototype.some\<close> is \<open>list_ex\<close>.
\<close>

definition handleAddToWatchlist :: "Stock \<Rightarrow> Stock list \<Rightarrow> Stock list" where
  "handleAddToWatchlist stock prev =
     (if list_ex (\<lambda>s. ticker s = ticker stock) prev then prev else prev @ [stock])"

definition handleRemoveFromWatchlist :: "jstring \<Rightarrow> Stock list \<Rightarrow> Stock list" where
  "handleRemoveFromWatchlist t prev = filter (\<lambda>s. ticker s \<noteq> t) prev"

definition isStockInWatchlist :: "Stock list \<Rightarrow> jstring \<Rightarrow> bool" where
  "isStockInWatchlist watchlist t = list_ex (\<lambda>s. ticker s = t) watchlist"

text \<open>The number of entries of a watchlist that carry a given ticker.\<close>

definition entries_with :: "jstring \<Rightarrow> Stock list \<Rightarrow> nat" where
  "entries_with t w = length (filter (\<lambda>s. ticker s = t) w)"

definition unique_tickers :: "Stock list \<Rightarrow> bool" where
  "unique_tickers w = distinct (map ticker w)"

section \<open>Controller state and query submission (App)\<close>

datatype view = Search | Watchlist

record app_state =
  query :: jstring
  result_stocks :: "Stock list"
  result_sources :: "Source list"
  loading :: bool
  error :: "jstring option"
  watchlist :: "Stock list"
  active_view :: view

definition initial_state :: app_state where
  "initial_state =
     \<lparr>query = js ''AI technology stocks'', result_stocks = [], result_sources = [],
      loading = False, error = None, watchlist = [], active_view = Search\<rparr>"

text \<open>
  What the awaited call of the service client settles to: the promise is fulfilled with a
  response, or rejected with a thrown value, which is an instance of \<open>Error\<close> carrying a
  message or some other value.
\<close>

datatype thrown = Error_instance jstring | Not_an_Error

datatype settled = Fulfilled GeminiStockResponse | Rejected thrown

text \<open>
  \<open>handleSubmit\<close> is an async function with one \<open>await\<close>. The part before the
  \<open>await\<close> either returns at the blank check or suspends with the state it has set and
  the argument passed to \<open>fetchPromisingStocks\<close>; the part after it runs on the state
  current at that time, with the settled promise.
\<close>

datatype suspension = Returned app_state | Awaiting jstring app_state

definition handleSubmit_before_await :: "jstring \<Rightarrow> app_state \<Rightarrow> suspension" where
  "handleSubmit_before_await currentQuery s =
     (if trim currentQuery = []
      then Returned (s\<lparr>error := Some (js ''Please enter a topic to search for.'')\<rparr>)
      else Awaiting currentQuery
             (s\<lparr>active_view := Search, loading := True, error := None,
                result_stocks := [], result_sources := []\<rparr>))"

definition handleSubmit_after_await :: "settled \<Rightarrow> app_state \<Rightarrow> app_state" where
  "handleSubmit_after_await r s =
     (case r of
        Fulfilled result \<Rightarrow>
          s\<lparr>result_stocks := stocks result, result_sources := sources result\<rparr>
      | Rejected (Error_instance m) \<Rightarrow>
          s\<lparr>error := Some (js ''Failed to fetch stock data: '' @ m @ js ''. Please try again.'')\<rparr>
      | Rejected Not_an_Error \<Rightarrow>
          s\<lparr>error := Some (js ''An unknown error occurred.'')\<rparr>)
     \<lparr>loading := False\<rparr>"

text \<open>
  A whole submission with nothing in between: the service client is a function from the
  query to what its promise settles to, and the result carries the list of queries the
  client was invoked with.
\<close>

definition handleSubmit ::
  "(jstring \<Rightarrow> settled) \<Rightarrow> jstring \<Rightarrow> app_state \<Rightarrow> app_state \<times> jstring list" where
  "handleSubmit fetchPromisingStocks currentQuery s =
     (case handleSubmit_before_await currentQuery s of
        Returned s' \<Rightarrow> (s', [])
      | Awaiting q s' \<Rightarrow> (handleSubmit_after_await (fetchPromisingStocks q) s', [q]))"

section \<open>JSON text (the platform's \<open>JSON.stringify\<close> and \<open>JSON.parse\<close>)\<close>

text \<open>
  The value that \<open>JSON.parse\<close> returns. A number keeps its lexeme; an object keeps its
  members in the order of the text, duplicates included (a lookup takes the last one).
\<close>

datatype json =
    JNull
  | JBoolean bool
  | JNumber jstring
  | JString jstring
  | JArray "json list"
  | JObject "(jstring \<times> json) list"

subsection \<open>Quoting a string\<close>

text \<open>
  \<open>QuoteJSONString\<close> walks the code points of the string: a leading surrogate followed by
  a trailing one is copied as a pair; backspace, tab, line feed, form feed, carriage return,
  the double quote and the backslash get their two-character escape; other code units
  below U+0020 and lone surrogates get a backslash, the letter u and four lower-case
  hexadecimal digits.
\<close>

definition hex_digit :: "nat \<Rightarrow> code_unit" where
  "hex_digit n = word_of_nat (if n < 10 then 48 + n else 87 + n)"

definition UnicodeEscape :: "code_unit \<Rightarrow> jstring" where
  "UnicodeEscape c =
     (let n = unat c
      in [0x5C, 0x75, hex_digit (n div 4096), hex_digit (n div 256 mod 16),
          hex_digit (n div 16 mod 16), hex_digit (n mod 16)])"

definition is_leading_surrogate :: "code_unit \<Rightarrow> bool" where
  "is_leading_surrogate c \<longleftrightarrow> 0xD800 \<le> c \<and> c \<le> 0xDBFF"

definition is_trailing_surrogate :: "code_unit \<Rightarrow> bool" where
  "is_trailing_surrogate c \<longleftrightarrow> 0xDC00 \<le> c \<and> c \<le> 0xDFFF"

definition quote_code_unit :: "code_unit \<Rightarrow> jstring" where
  "quote_code_unit c =
     (if c = 0x08 then [0x5C, 0x62]
      else if c = 0x09 then [0x5C, 0x74]
      else if c = 0x0A then [0x5C, 0x6E]
      else if c = 0x0C then [0x5C, 0x66]
      else if c = 0x0D then [0x5C, 0x72]
      else if c = 0x22 then [0x5C, 0x22]
      else if c = 0x5C then [0x5C, 0x5C]
      else if c < 0x20 \<or> is_leading_surrogate c \<or> is_trailing_surrogate c then UnicodeEscape c
      else [c])"

fun quote_body :: "jstring \<Rightarrow> jstring" where
  "quote_body (c # d # ds) =
     (if is_leading_surrogate c \<and> is_trailing_surrogate d then c # d # quote_body ds
      else quote_code_unit c @ quote_body (d # ds))"
| "quote_body [c] = quote_code_unit c"
| "quote_body [] = []"

definition QuoteJSONString :: "jstring \<Rightarrow> jstring" where
  "QuoteJSONString s = 0x22 # quote_body s @ [0x22]"

subsection \<open>Parsing\<close>

text \<open>
  The parser follows the JSON grammar: white space is space, tab, line feed and carriage
  return; a string may not hold a raw code unit below U+0020; \<open>None\<close> stands for the
  \<open>SyntaxError\<close> that \<open>JSON.parse\<close> throws.
\<close>

definition hex_value :: "code_unit \<Rightarrow> nat option" where
  "hex_value c =
     (let n = unat c
      in if 48 \<le> n \<and> n \<le> 57 then Some (n - 48)
         else if 97 \<le> n \<and> n \<le> 102 then Some (n - 87)
         else if 65 \<le> n \<and> n \<le> 70 then Some (n - 55)
         else None)"

definition single_escape :: "code_unit \<Rightarrow> code_unit option" where
  "single_escape e =
     (if e = 0x22 then Some 0x22
      else if e = 0x5C then Some 0x5C
      else if e = 0x2F then Some 0x2F
      else if e = 0x62 then Some 0x08
      else if e = 0x66 then Some 0x0C
      else if e = 0x6E then Some 0x0A
      else if e = 0x72 then Some 0x0D
      else if e = 0x74 then Some 0x09
      else None)"

definition hex4 :: "code_unit \<Rightarrow> code_unit \<Rightarrow> code_unit \<Rightarrow> code_unit \<Rightarrow> code_unit option" where
  "hex4 h1 h2 h3 h4 =
     (case (hex_value h1, hex_value h2, hex_value h3, hex_value h4) of
        (Some a, Some b, Some c, Some d) \<Rightarrow> Some (word_of_nat (a * 4096 + b * 256 + c * 16 + d))
      | _ \<Rightarrow> None)"

definition cons_result :: "'a \<Rightarrow> ('a list \<times> 'b) option \<Rightarrow> ('a list \<times> 'b) option" where
  "cons_result x r = map_option (\<lambda>(xs, rest). (x # xs, rest)) r"

fun parse_string_chars :: "jstring \<Rightarrow> (jstring \<times> jstring) option" where
  "parse_string_chars [] = None"
| "parse_string_chars (c # cs) =
     (if c = 0x22 then Some ([], cs)
      else if c = 0x5C then
        (case cs of
           [] \<Rightarrow> None
         | e # es \<Rightarrow>
             if e = 0x75 then
               (case es of
                  h1 # h2 # h3 # h4 # r \<Rightarrow>
                    (case hex4 h1 h2 h3 h4 of
                       None \<Rightarrow> None
                     | Some u \<Rightarrow> cons_result u (parse_string_chars r))
                | _ \<Rightarrow> None)
             else
               (case single_escape e of
                  None \<Rightarrow> None
                | Some u \<Rightarrow> cons_result u (parse_string_chars es)))
      else if c < 0x20 then None
      else cons_result c (parse_string_chars cs))"

definition is_json_ws :: "code_unit \<Rightarrow> bool" where
  "is_json_ws c \<longleftrightarrow> c = 0x20 \<or> c = 0x09 \<or> c = 0x0A \<or> c = 0x0D"

definition skip_ws :: "jstring \<Rightarrow> jstring" where
  "skip_ws s = dropWhile is_json_ws s"

definition is_digit :: "code_unit \<Rightarrow> bool" where
  "is_digit c \<longleftrightarrow> 0x30 \<le> c \<and> c \<le> 0x39"

definition parse_int_part :: "jstring \<Rightarrow> (jstring \<times> jstring) option" where
  "parse_int_part s =
     (case s of
        [] \<Rightarrow> None
      | d # r \<Rightarrow>
          if d = 0x30 then Some ([d], r)
          else if is_digit d then Some (d # takeWhile is_digit r, dropWhile is_digit r)
          else None)"

definition parse_fraction :: "jstring \<Rightarrow> (jstring \<times> jstring) option" where
  "parse_fraction s =
     (case s of
        [] \<Rightarrow> Some ([], s)
      | d # r \<Rightarrow>
          if d = 0x2E then
            (if takeWhile is_digit r = [] then None
             else Some (d # takeWhile is_digit r, dropWhile is_digit r))
          else Some ([], s))"

definition parse_sign :: "jstring \<Rightarrow> jstring \<times> jstring" where
  "parse_sign s =
     (case s of
        [] \<Rightarrow> ([], s)
      | g # r \<Rightarrow> if g = 0x2B \<or> g = 0x2D then ([g], r) else ([], s))"

definition parse_exponent :: "jstring \<Rightarrow> (jstring \<times> jstring) option" where
  "parse_exponent s =
     (case s of
        [] \<Rightarrow> Some ([], s)
      | e # r \<Rightarrow>
          if e = 0x65 \<or> e = 0x45 then
            (case parse_sign r of
               (sign, r') \<Rightarrow>
                 if takeWhile is_digit r' = [] then None
                 else Some (e # sign @ takeWhile is_digit r', dropWhile is_digit r'))
          else Some ([], s))"

definition parse_number :: "jstring \<Rightarrow> (jstring \<times> jstring) option" where
  "parse_number s =
     (case (case s of [] \<Rightarrow> ([], s) | c # r \<Rightarrow> if c = 0x2D then ([c], r) else ([], s)) of
        (neg, r0) \<Rightarrow>
          (case parse_int_part r0 of
             None \<Rightarrow> None
           | Some (i, r1) \<Rightarrow>
               (case parse_fraction r1 of
                  None \<Rightarrow> None
                | Some (f, r2) \<Rightarrow>
                    (case parse_exponent r2 of
                       None \<Rightarrow> None
                     | Some (e, r3) \<Rightarrow> Some (neg @ i @ f @ e, r3)))))"

definition parse_literal :: "jstring \<Rightarrow> (json \<times> jstring) option" where
  "parse_literal s =
     (if take 4 s = js ''true'' then Some (JBoolean True, drop 4 s)
      else if take 5 s = js ''false'' then Some (JBoolean False, drop 5 s)
      else if take 4 s = js ''null'' then Some (JNull, drop 4 s)
      else None)"

text \<open>
  Values, array elements and object members call each other; the first argument bounds the
  number of nested calls. Every call made by another has consumed at least one code unit of
  the text, so the length of the text is bound enough (\<open>parse_value_fuel\<close> below).
\<close>

fun parse_value :: "nat \<Rightarrow> jstring \<Rightarrow> (json \<times> jstring) option"
  and parse_elements :: "nat \<Rightarrow> jstring \<Rightarrow> (json list \<times> jstring) option"
  and parse_members :: "nat \<Rightarrow> jstring \<Rightarrow> ((jstring \<times> json) list \<times> jstring) option"
where
  "parse_value 0 s = None"
| "parse_value (Suc n) s =
     (case skip_ws s of
        [] \<Rightarrow> None
      | c # cs \<Rightarrow>
          if c = 0x22 then
            (case parse_string_chars cs of
               None \<Rightarrow> None
             | Some (str, r) \<Rightarrow> Some (JString str, r))
          else if c = 0x5B then
            (case skip_ws cs of
               [] \<Rightarrow> None
             | d # ds \<Rightarrow>
                 if d = 0x5D then Some (JArray [], ds)
                 else (case parse_elements n cs of
                         None \<Rightarrow> None
                       | Some (vs, r) \<Rightarrow> Some (JArray vs, r)))
          else if c = 0x7B then
            (case skip_ws cs of
               [] \<Rightarrow> None
             | d # ds \<Rightarrow>
                 if d = 0x7D then Some (JObject [], ds)
                 else (case parse_members n cs of
                         None \<Rightarrow> None
                       | Some (ms, r) \<Rightarrow> Some (JObject ms, r)))
          else if c = 0x2D \<or> is_digit c then
            (case parse_number (c # cs) of
               None \<Rightarrow> None
             | Some (lexeme, r) \<Rightarrow> Some (JNumber lexeme, r))
          else parse_literal (c # cs))"
| "parse_elements 0 s = None"
| "parse_elements (Suc n) s =
     (case parse_value n s of
        None \<Rightarrow> None
      | Some (v, r) \<Rightarrow>
          (case skip_ws r of
             [] \<Rightarrow> None
           | c # cs \<Rightarrow>
               if c = 0x2C then cons_result v (parse_elements n cs)
               else if c = 0x5D then Some ([v], cs)
               else None))"
| "parse_members 0 s = None"
| "parse_members (Suc n) s =
     (case skip_ws s of
        [] \<Rightarrow> None
      | q # qs \<Rightarrow>
          if q \<noteq> 0x22 then None
          else
            (case parse_string_chars qs of
               None \<Rightarrow> None
             | Some (k, r) \<Rightarrow>
                 (case skip_ws r of
                    [] \<Rightarrow> None
                  | c # cs \<Rightarrow>
                      if c \<noteq> 0x3A then None
                      else
                        (case parse_value n cs of
                           None \<Rightarrow> None
                         | Some (v, r') \<Rightarrow>
                             (case skip_ws r' of
                                [] \<Rightarrow> None
                              | e # es \<Rightarrow>
                                  if e = 0x2C then cons_result (k, v) (parse_members n es)
                                  else if e = 0x7D then Some ([(k, v)], es)
                                  else None)))))"

definition JSON_parse :: "jstring \<Rightarrow> json option" where
  "JSON_parse text =
     (case parse_value (length text) text of
        None \<Rightarrow> None
      | Some (v, r) \<Rightarrow> if skip_ws r = [] then Some v else None)"

subsection \<open>Serialising a watchlist\<close>

text \<open>
  \<open>JSON.stringify\<close> at the type \<open>Stock[]\<close>, without indentation: every stock is an
  object of four string properties, written in the order of the interface declaration.
\<close>

definition stringify_property :: "string \<Rightarrow> jstring \<Rightarrow> jstring" where
  "stringify_property key v = QuoteJSONString (js key) @ 0x3A # QuoteJSONString v"

definition stringify_Stock :: "Stock \<Rightarrow> jstring" where
  "stringify_Stock s =
     0x7B # stringify_property ''ticker'' (ticker s) @
     0x2C # stringify_property ''companyName'' (companyName s) @
     0x2C # stringify_property ''growthPotential'' (growthPotential s) @
     0x2C # stringify_property ''publicSentiment'' (publicSentiment s) @ [0x7D]"

fun join_comma :: "jstring list \<Rightarrow> jstring" where
  "join_comma [] = []"
| "join_comma [x] = x"
| "join_comma (x # y # ys) = x @ 0x2C # join_comma (y # ys)"

definition JSON_stringify :: "Stock list \<Rightarrow> jstring" where
  "JSON_stringify w = 0x5B # join_comma (map stringify_Stock w) @ [0x5D]"

text \<open>The parsed form of a serialised stock.\<close>

definition json_of_Stock :: "Stock \<Rightarrow> json" where
  "json_of_Stock s =
     JObject [(js ''ticker'', JString (ticker s)), (js ''companyName'', JString (companyName s)),
              (js ''growthPotential'', JString (growthPotential s)),
              (js ''publicSentiment'', JString (publicSentiment s))]"

subsection \<open>Reading a parsed value at its declared type\<close>

text \<open>
  The parsed value is used as a \<open>Stock[]\<close>. \<open>as_watchlist\<close> is that reading: an array
  whose elements are objects with the four properties holding strings. Properties beyond
  the four are not part of a \<open>Stock\<close> and are dropped.
\<close>

definition get_property :: "(jstring \<times> json) list \<Rightarrow> string \<Rightarrow> json option" where
  "get_property ms key = map_of (rev ms) (js key)"

definition string_property :: "(jstring \<times> json) list \<Rightarrow> string \<Rightarrow> jstring option" where
  "string_property ms key = (case get_property ms key of Some (JString v) \<Rightarrow> Some v | _ \<Rightarrow> None)"

fun as_Stock :: "json \<Rightarrow> Stock option" where
  "as_Stock (JObject ms) =
     (case (string_property ms ''ticker'', string_property ms ''companyName'',
            string_property ms ''growthPotential'', string_property ms ''publicSentiment'') of
        (Some t, Some c, Some g, Some p) \<Rightarrow>
          Some \<lparr>ticker = t, companyName = c, growthPotential = g, publicSentiment = p\<rparr>
      | _ \<Rightarrow> None)"
| "as_Stock _ = None"

fun as_watchlist :: "json \<Rightarrow> Stock list option" where
  "as_watchlist (JArray vs) = those (map as_Stock vs)"
| "as_watchlist _ = None"

section \<open>Local storage (the platform's \<open>localStorage\<close>)\<close>

text \<open>
  Storage maps keys to strings. Access throws \<open>SecurityError\<close> when the origin is denied
  storage; a write throws \<open>QuotaExceededError\<close> when the entry does not fit the quota.
\<close>

datatype js_error = SecurityError | QuotaExceededError | SyntaxError

record local_storage =
  items :: "jstring \<rightharpoonup> jstring"
  quota :: nat
  access_denied :: bool

definition getItem :: "local_storage \<Rightarrow> jstring \<Rightarrow> js_error + jstring option" where
  "getItem st k = (if access_denied st then Inl SecurityError else Inr (items st k))"

definition setItem :: "local_storage \<Rightarrow> jstring \<Rightarrow> jstring \<Rightarrow> js_error + local_storage" where
  "setItem st k v =
     (if access_denied st then Inl SecurityError
      else if quota st < length k + length v then Inl QuotaExceededError
      else Inr (st\<lparr>items := (items st)(k \<mapsto> v)\<rparr>))"

section \<open>Startup: hydrate and persist (App)\<close>

text \<open>
  The two effects of the component. Both wrap their body in \<open>try\<close>/\<open>catch\<close> and log the
  caught error with \<open>console.error\<close>; a console entry is the logged message with the error.
\<close>

type_synonym console_log = "(jstring \<times> js_error) list"

definition storage_key :: jstring where
  "storage_key = js ''stockWatchlist''"

text \<open>
  The \<open>try\<close> block of the first effect: the value handed to \<open>setWatchlist\<close>, if any, or
  the error thrown. A missing item (\<open>null\<close>) and the empty string are falsy and skip
  the parse.
\<close>

definition hydrate_try :: "local_storage \<Rightarrow> js_error + json option" where
  "hydrate_try st =
     (case getItem st storage_key of
        Inl e \<Rightarrow> Inl e
      | Inr None \<Rightarrow> Inr None
      | Inr (Some savedWatchlist) \<Rightarrow>
          if savedWatchlist = [] then Inr None
          else (case JSON_parse savedWatchlist of
                  None \<Rightarrow> Inl SyntaxError
                | Some v \<Rightarrow> Inr (Some v)))"

definition hydrate :: "local_storage \<Rightarrow> json option \<times> console_log" where
  "hydrate st =
     (case hydrate_try st of
        Inl e \<Rightarrow> (None, [(js ''Could not load watchlist from localStorage'', e)])
      | Inr update \<Rightarrow> (update, []))"

definition persist :: "Stock list \<Rightarrow> local_storage \<Rightarrow> local_storage \<times> console_log" where
  "persist w st =
     (case setItem st storage_key (JSON_stringify w) of
        Inl e \<Rightarrow> (st, [(js ''Could not save watchlist to localStorage'', e)])
      | Inr st' \<Rightarrow> (st', []))"

record world =
  state :: app_state
  storage :: local_storage
  console :: console_log

text \<open>
  Mounting the component runs both effects after the first render, in the order they are
  declared: the first reads storage and queues its update of the watchlist, the second
  writes the watchlist of the first render (the empty one). The queued update is then
  applied, and the second effect runs again on the new watchlist. The value of
  \<open>JSON.parse\<close> is stored unchecked; when it is not an array of stocks the state leaves the
  declared type \<open>Stock[]\<close>, which the outcome \<open>Ill_typed\<close> records.
\<close>

datatype startup = Started world | Ill_typed json

definition mount :: "local_storage \<Rightarrow> startup" where
  "mount st =
     (case hydrate st of
        (update, log1) \<Rightarrow>
          (case persist (watchlist initial_state) st of
             (st1, log2) \<Rightarrow>
               (case update of
                  None \<Rightarrow> Started \<lparr>state = initial_state, storage = st1, console = log1 @ log2\<rparr>
                | Some v \<Rightarrow>
                    (case as_watchlist v of
                       None \<Rightarrow> Ill_typed v
                     | Some w \<Rightarrow>
                         (case persist w st1 of
                            (st2, log3) \<Rightarrow>
                              Started \<lparr>state = initial_state\<lparr>watchlist := w\<rparr>, storage = st2,
                                       console = log1 @ log2 @ log3\<rparr>)))))"

definition load_failure_logged :: "world \<Rightarrow> bool" where
  "load_failure_logged w =
     list_ex (\<lambda>entry. fst entry = js ''Could not load watchlist from localStorage'') (console w)"

text \<open>After startup the watchlist changes only through the two callbacks.\<close>

datatype action = Add Stock | Remove jstring

fun apply_action :: "Stock list \<Rightarrow> action \<Rightarrow> Stock list" where
  "apply_action w (Add stock) = handleAddToWatchlist stock w"
| "apply_action w (Remove t) = handleRemoveFromWatchlist t w"

definition run :: "action list \<Rightarrow> Stock list \<Rightarrow> Stock list" where
  "run acts w = foldl apply_action w acts"

section \<open>Sample data\<close>

definition stock_A :: Stock where
  "stock_A = \<lparr>ticker = js ''A'', companyName = js ''Alpha'', growthPotential = js ''high'',
              publicSentiment = js ''good''\<rparr>"

definition stock_A' :: Stock where
  "stock_A' = \<lparr>ticker = js ''A'', companyName = js ''Alpha Inc'', growthPotential = js ''low'',
               publicSentiment = js ''mixed''\<rparr>"

definition stock_B :: Stock where
  "stock_B = \<lparr>ticker = js ''B'', companyName = js ''Beta'', growthPotential = js ''fair'',
              publicSentiment = js ''calm''\<rparr>"

definition fresh_storage :: local_storage where
  "fresh_storage = \<lparr>items = Map.empty, quota = 5000000, access_denied = False\<rparr>"

definition stored :: "jstring \<Rightarrow> local_storage" where
  "stored text = fresh_storage\<lparr>items := [storage_key \<mapsto> text]\<rparr>"

text \<open>A stored text that lists the ticker A twice, and one that lists two tickers.\<close>

definition duplicate_text :: jstring where
  \<open>duplicate_text = js ''[{"ticker":"A","companyName":"Alpha","growthPotential":"high","publicSentiment":"good"},{"ticker":"A","companyName":"Alpha","growthPotential":"high","publicSentiment":"good"}]''\<close>

definition sample_text :: jstring where
  \<open>sample_text = js ''[{"ticker":"A","companyName":"Alpha","growthPotential":"high","publicSentiment":"good"},{"ticker":"B","companyName":"Beta","growthPotential":"fair","publicSentiment":"calm"}]''\<close>

definition sample_response :: GeminiStockResponse where
  "sample_response =
     \<lparr>stocks = [stock_A], sources = [\<lparr>uri = js ''https://x'', title = js ''Y''\<rparr>]\<rparr>"

definition duplicate_world :: world where
  "duplicate_world =
     \<lparr>state = initial_state\<lparr>watchlist := [stock_A, stock_A]\<rparr>,
      storage = stored duplicate_text, console = []\<rparr>"

section \<open>Round trip of strings through quoting and parsing\<close>

lemma hex_value_hex_digit: "n < 16 \<Longrightarrow> hex_value (hex_digit n) = Some n"
  by (auto simp: hex_value_def hex_digit_def unat_of_nat Let_def)

lemma unat_16_bound: "unat (c :: code_unit) < 65536"
  using unsigned_less [of c, where 'a = nat] by simp

lemma nibbles:
  "(n div 4096) * 4096 + (n div 256 mod 16) * 256 + (n div 16 mod 16) * 16 + n mod 16 = (n::nat)"
proof -
  have e1: "n div 16 div 16 = n div 256" and e2: "n div 256 div 16 = n div 4096"
    by (simp_all add: div_mult2_eq [symmetric])
  have a: "n = n div 16 * 16 + n mod 16" by simp
  have b: "n div 16 = n div 16 div 16 * 16 + n div 16 mod 16" by simp
  have c: "n div 256 = n div 256 div 16 * 16 + n div 256 mod 16" by simp
  from a b [unfolded e1] c [unfolded e2] show ?thesis by linarith
qed

lemma parse_plain:
  "c \<noteq> 0x22 \<Longrightarrow> c \<noteq> 0x5C \<Longrightarrow> \<not> c < 0x20 \<Longrightarrow>
   parse_string_chars (c # xs) = cons_result c (parse_string_chars xs)"
  by simp

lemma parse_single_escape:
  "single_escape e = Some u \<Longrightarrow> e \<noteq> 0x75 \<Longrightarrow>
   parse_string_chars (0x5C # e # xs) = cons_result u (parse_string_chars xs)"
  by simp

lemma parse_unicode_escape:
  "hex4 h1 h2 h3 h4 = Some u \<Longrightarrow>
   parse_string_chars (0x5C # 0x75 # h1 # h2 # h3 # h4 # xs) = cons_result u (parse_string_chars xs)"
  by simp

lemma parse_closing_quote: "parse_string_chars (0x22 # xs) = Some ([], xs)"
  by simp

lemma UnicodeEscape_parse:
  "parse_string_chars (UnicodeEscape c @ xs) = cons_result c (parse_string_chars xs)"
proof -
  let ?n = "unat c"
  have b: "?n < 65536" by (rule unat_16_bound)
  then have d: "?n div 4096 < 16" "?n div 256 mod 16 < 16" "?n div 16 mod 16 < 16" "?n mod 16 < 16"
    by simp_all
  have "hex4 (hex_digit (?n div 4096)) (hex_digit (?n div 256 mod 16))
          (hex_digit (?n div 16 mod 16)) (hex_digit (?n mod 16)) = Some c"
    using d nibbles [of ?n] by (simp add: hex4_def hex_value_hex_digit)
  then show ?thesis
    by (simp only: UnicodeEscape_def Let_def append_Cons append_Nil parse_unicode_escape)
qed

lemma quote_code_unit_parse:
  "parse_string_chars (quote_code_unit c @ xs) = cons_result c (parse_string_chars xs)"
proof -
  consider "c = 0x08" | "c = 0x09" | "c = 0x0A" | "c = 0x0C" | "c = 0x0D" | "c = 0x22" | "c = 0x5C"
    | "c \<notin> {0x08, 0x09, 0x0A, 0x0C, 0x0D, 0x22, 0x5C}"
        "c < 0x20 \<or> is_leading_surrogate c \<or> is_trailing_surrogate c"
    | "c \<notin> {0x08, 0x09, 0x0A, 0x0C, 0x0D, 0x22, 0x5C}"
        "\<not> (c < 0x20 \<or> is_leading_surrogate c \<or> is_trailing_surrogate c)"
    by blast
  then show ?thesis
  proof cases
    case 8
    then have "quote_code_unit c = UnicodeEscape c" by (simp add: quote_code_unit_def)
    then show ?thesis by (simp only: UnicodeEscape_parse)
  next
    case 9
    then have "quote_code_unit c = [c]" by (simp add: quote_code_unit_def)
    with 9 show ?thesis by (simp add: parse_plain del: parse_string_chars.simps)
  qed (simp_all add: quote_code_unit_def single_escape_def parse_single_escape del: parse_string_chars.simps)
qed

lemma surrogate_plain:
  assumes "0xD800 \<le> (c :: code_unit)"
  shows "c \<noteq> 0x22" "c \<noteq> 0x5C" "\<not> c < 0x20"
  using assms by (auto simp: word_le_nat_alt word_less_nat_alt)

lemma surrogate_pair_parse:
  assumes "is_leading_surrogate c" "is_trailing_surrogate d"
  shows "parse_string_chars (c # d # xs) = cons_result c (cons_result d (parse_string_chars xs))"
proof -
  have c: "0xD800 \<le> c" using assms(1) by (simp add: is_leading_surrogate_def)
  have "0xDC00 \<le> d" using assms(2) by (simp add: is_trailing_surrogate_def)
  then have d: "0xD800 \<le> d" by (auto simp: word_le_nat_alt)
  show ?thesis
    by (simp only: parse_plain [OF surrogate_plain [OF c]] parse_plain [OF surrogate_plain [OF d]])
qed

lemma quote_body_parse:
  "parse_string_chars (quote_body s @ 0x22 # rest) = Some (s, rest)"
proof (induction s rule: quote_body.induct)
  case (1 c d ds)
  then show ?case
    by (simp add: surrogate_pair_parse quote_code_unit_parse cons_result_def del: parse_string_chars.simps)
next
  case (2 c)
  then show ?case
    by (simp add: quote_code_unit_parse parse_closing_quote cons_result_def del: parse_string_chars.simps)
next
  case 3
  then show ?case by simp
qed

lemma skip_ws_start: "\<not> is_json_ws c \<Longrightarrow> skip_ws (c # cs) = c # cs"
  by (simp add: skip_ws_def)

lemma not_ws: "\<not> is_json_ws 0x22" "\<not> is_json_ws 0x2C" "\<not> is_json_ws 0x3A"
  "\<not> is_json_ws 0x5B" "\<not> is_json_ws 0x5D" "\<not> is_json_ws 0x7B" "\<not> is_json_ws 0x7D"
  by (simp_all add: is_json_ws_def)

lemma parse_value_string:
  "parse_value (Suc n) (0x22 # quote_body v @ 0x22 # rest) = Some (JString v, rest)"
  by (simp add: skip_ws_start not_ws quote_body_parse del: parse_string_chars.simps)

lemma parse_members_more:
  "parse_members (Suc (Suc n)) (stringify_property k v @ 0x2C # rest) =
     cons_result (js k, JString v) (parse_members (Suc n) rest)"
  unfolding stringify_property_def QuoteJSONString_def
  by (subst parse_members.simps(2))
     (simp add: skip_ws_start not_ws quote_body_parse parse_value_string
        del: parse_string_chars.simps parse_value.simps parse_members.simps(2))

lemma parse_members_last:
  "parse_members (Suc (Suc n)) (stringify_property k v @ 0x7D # rest) =
     Some ([(js k, JString v)], rest)"
  unfolding stringify_property_def QuoteJSONString_def
  by (subst parse_members.simps(2))
     (simp add: skip_ws_start not_ws quote_body_parse parse_value_string
        del: parse_string_chars.simps parse_value.simps parse_members.simps(2))

lemma skip_ws_property:
  "skip_ws (stringify_property k v @ rest) =
     0x22 # (quote_body (js k) @ 0x22 # 0x3A # QuoteJSONString v @ rest)"
  by (simp add: stringify_property_def QuoteJSONString_def skip_ws_start not_ws)

lemma parse_value_object:
  "skip_ws cs = 0x22 # r \<Longrightarrow>
   parse_value (Suc n) (0x7B # cs) =
     (case parse_members n cs of None \<Rightarrow> None | Some (ms, r') \<Rightarrow> Some (JObject ms, r'))"
  by (simp add: skip_ws_start not_ws)

lemma parse_value_Stock:
  "parse_value (n + 6) (stringify_Stock s @ rest) = Some (json_of_Stock s, rest)"
proof -
  have n: "n + 6 = Suc (Suc (Suc (Suc (Suc (Suc n)))))" by simp
  let ?members = "stringify_property ''ticker'' (ticker s) @
     0x2C # stringify_property ''companyName'' (companyName s) @
     0x2C # stringify_property ''growthPotential'' (growthPotential s) @
     0x2C # stringify_property ''publicSentiment'' (publicSentiment s) @ 0x7D # rest"
  have m: "parse_members (Suc (Suc (Suc (Suc (Suc n))))) ?members =
      Some ([(js ''ticker'', JString (ticker s)), (js ''companyName'', JString (companyName s)),
              (js ''growthPotential'', JString (growthPotential s)),
              (js ''publicSentiment'', JString (publicSentiment s))], rest)"
    by (simp only: parse_members_more parse_members_last cons_result_def option.map prod.case)
  have "stringify_Stock s @ rest = 0x7B # ?members"
    by (simp add: stringify_Stock_def)
  then show ?thesis
    unfolding n
    by (simp only: parse_value_object [OF skip_ws_property] m json_of_Stock_def option.case prod.case)
qed

lemma parse_elements_Stocks:
  "w \<noteq> [] \<Longrightarrow> length w + 6 \<le> fuel \<Longrightarrow>
   parse_elements fuel (join_comma (map stringify_Stock w) @ 0x5D # rest) =
     Some (map json_of_Stock w, rest)"
proof (induction w arbitrary: fuel)
  case Nil
  then show ?case by simp
next
  case (Cons s w)
  define m where "m = fuel - 7"
  have fuel: "fuel = Suc (m + 6)" and m: "length w \<le> m"
    using Cons.prems(2) by (simp_all add: m_def)
  show ?case
  proof (cases w)
    case Nil
    have "parse_elements (Suc (m + 6)) (stringify_Stock s @ 0x5D # rest) = Some ([json_of_Stock s], rest)"
      by (subst parse_elements.simps(2))
         (simp add: parse_value_Stock skip_ws_start not_ws del: parse_value.simps parse_elements.simps)
    with Nil fuel show ?thesis by simp
  next
    case (Cons s' w')
    then have "length w + 6 \<le> m + 6" "w \<noteq> []" using m by simp_all
    then have ih: "parse_elements (m + 6) (join_comma (map stringify_Stock w) @ 0x5D # rest) =
        Some (map json_of_Stock w, rest)"
      using Cons.IH by blast
    have "parse_elements (Suc (m + 6))
            (stringify_Stock s @ 0x2C # join_comma (map stringify_Stock w) @ 0x5D # rest) =
          Some (json_of_Stock s # map json_of_Stock w, rest)"
      by (subst parse_elements.simps(2))
         (simp add: parse_value_Stock skip_ws_start not_ws ih cons_result_def
            del: parse_value.simps parse_elements.simps)
    with Cons fuel show ?thesis by simp
  qed
qed

lemma parse_value_array:
  "skip_ws cs = 0x7B # ds \<Longrightarrow>
   parse_value (Suc n) (0x5B # cs) =
     (case parse_elements n cs of None \<Rightarrow> None | Some (vs, r) \<Rightarrow> Some (JArray vs, r))"
  by (simp add: skip_ws_start not_ws)

lemma parse_value_empty_array: "parse_value (Suc n) (0x5B # 0x5D # rest) = Some (JArray [], rest)"
  by (simp add: skip_ws_start not_ws)

lemma length_stringify_Stock: "6 \<le> length (stringify_Stock s)"
  by (simp add: stringify_Stock_def stringify_property_def QuoteJSONString_def)

lemma length_join_Stocks:
  "w \<noteq> [] \<Longrightarrow> length w + 5 \<le> length (join_comma (map stringify_Stock w))"
proof (induction w rule: induct_list012)
  case 1
  then show ?case by simp
next
  case (2 s)
  then show ?case using length_stringify_Stock [of s] by simp
next
  case (3 s t w)
  then show ?case using length_stringify_Stock [of s] by simp
qed

lemma join_Stocks_start:
  "w \<noteq> [] \<Longrightarrow> skip_ws (join_comma (map stringify_Stock w) @ r) =
     0x7B # tl (join_comma (map stringify_Stock w) @ r)"
proof (induction w rule: induct_list012)
  case 1
  then show ?case by simp
next
  case (2 s)
  then show ?case by (simp add: stringify_Stock_def skip_ws_start not_ws)
next
  case (3 s t w)
  then show ?case by (simp add: stringify_Stock_def skip_ws_start not_ws)
qed

lemma JSON_parse_stringify: "JSON_parse (JSON_stringify w) = Some (JArray (map json_of_Stock w))"
proof (cases "w = []")
  case True
  then show ?thesis
    by (simp add: JSON_parse_def JSON_stringify_def parse_value_empty_array skip_ws_def
          del: parse_value.simps)
next
  case False
  let ?body = "join_comma (map stringify_Stock w)"
  have eq: "JSON_stringify w = 0x5B # ?body @ [0x5D]"
    by (simp add: JSON_stringify_def)
  have len: "length (0x5B # ?body @ [0x5D]) = Suc (Suc (length ?body))"
    by simp
  have "length w + 6 \<le> Suc (length ?body)"
    using length_join_Stocks [OF False] by simp
  then have "parse_elements (Suc (length ?body)) (?body @ 0x5D # []) = Some (map json_of_Stock w, [])"
    using False by (rule parse_elements_Stocks [rotated])
  then have pv: "parse_value (Suc (Suc (length ?body))) (0x5B # ?body @ [0x5D]) =
      Some (JArray (map json_of_Stock w), [])"
    by (simp only: parse_value_array [OF join_Stocks_start [OF False]] option.case prod.case)
  show ?thesis
    unfolding JSON_parse_def eq len pv by (simp add: skip_ws_def)
qed

lemma as_Stock_json_of_Stock: "as_Stock (json_of_Stock s) = Some s"
  by (simp add: json_of_Stock_def string_property_def get_property_def js_def)

lemma as_watchlist_json: "as_watchlist (JArray (map json_of_Stock w)) = Some w"
  by (induction w) (simp_all add: as_Stock_json_of_Stock)

section \<open>The bound of the parser\<close>

text \<open>
  Each of the three parsers returns a shorter text than it was given, a larger bound never
  changes a result, and the number of code units consumed is bound enough.
\<close>

lemma length_skip_ws: "length (skip_ws s) \<le> length s"
  by (simp add: skip_ws_def length_dropWhile_le)

lemma skip_ws_Cons_length: "skip_ws s = c # cs \<Longrightarrow> length cs < length s"
  using length_skip_ws [of s] by simp

lemma cons_result_Some: "cons_result x p = Some (ys, r) \<longleftrightarrow> (\<exists>xs. p = Some (xs, r) \<and> ys = x # xs)"
  by (cases p) (auto simp: cons_result_def)

lemma parse_string_chars_shorter:
  "parse_string_chars s = Some (x, r) \<Longrightarrow> length r < length s"
proof (induction s arbitrary: x r rule: parse_string_chars.induct)
  case 1
  then show ?case by simp
next
  case (2 c cs)
  show ?case
  proof (cases "c = 0x22")
    case True
    with "2.prems" show ?thesis by simp
  next
    case q: False
    show ?thesis
    proof (cases "c = 0x5C")
      case False
      with q "2.prems" obtain xs where "parse_string_chars cs = Some (xs, r)"
        by (auto simp: cons_result_Some split: if_splits)
      with "2.IH"(3) [OF q False] have "length r < length cs"
        using q False "2.prems" by (auto split: if_splits)
      then show ?thesis by simp
    next
      case True
      with q "2.prems" obtain e es where cs: "cs = e # es"
        by (cases cs) auto
      show ?thesis
      proof (cases "e = 0x75")
        case False
        with q True cs "2.prems" obtain u xs where u: "single_escape e = Some u"
          and "parse_string_chars es = Some (xs, r)"
          by (auto simp: cons_result_Some split: option.splits)
        with "2.IH"(2) [OF q True cs False u] have "length r < length es" by simp
        with cs show ?thesis by simp
      next
        case u: True
        with q True cs "2.prems" obtain h1 h2 h3 h4 r' v xs where es: "es = h1 # h2 # h3 # h4 # r'"
          and v: "hex4 h1 h2 h3 h4 = Some v" and "parse_string_chars r' = Some (xs, r)"
          by (auto simp: cons_result_Some split: option.splits list.splits)
        with "2.IH"(1) [OF q True cs u es] have "length r < length r'"
          by simp
        with cs es show ?thesis by simp
      qed
    qed
  qed
qed

lemma parse_int_part_shorter: "parse_int_part s = Some (i, r) \<Longrightarrow> length r < length s"
  using length_dropWhile_le [of is_digit "tl s"]
  by (cases s) (auto simp: parse_int_part_def split: if_splits)

lemma parse_fraction_shorter: "parse_fraction s = Some (f, r) \<Longrightarrow> length r \<le> length s"
  using length_dropWhile_le [of is_digit "tl s"]
  by (cases s) (auto simp: parse_fraction_def split: if_splits)

lemma parse_sign_shorter: "parse_sign s = (g, r) \<Longrightarrow> length r \<le> length s"
  by (cases s) (auto simp: parse_sign_def split: if_splits)

lemma parse_exponent_shorter: "parse_exponent s = Some (e, r) \<Longrightarrow> length r \<le> length s"
proof (cases s)
  case Nil
  assume "parse_exponent s = Some (e, r)"
  with Nil show ?thesis by (simp add: parse_exponent_def)
next
  case (Cons c cs)
  assume a: "parse_exponent s = Some (e, r)"
  obtain g r' where g: "parse_sign cs = (g, r')" by (cases "parse_sign cs")
  from parse_sign_shorter [OF g] length_dropWhile_le [of is_digit r'] a Cons g
  show ?thesis
    by (auto simp: parse_exponent_def split: if_splits)
qed

lemma parse_number_shorter: "parse_number s = Some (l, r) \<Longrightarrow> length r < length s"
proof -
  assume a: "parse_number s = Some (l, r)"
  define p where "p = (case s of [] \<Rightarrow> ([], s) | c # r \<Rightarrow> if c = 0x2D then ([c], r) else ([], s))"
  obtain neg r0 where p: "p = (neg, r0)" by (cases p)
  have r0: "length r0 \<le> length s"
    using p by (cases s) (auto simp: p_def split: if_splits)
  from a p obtain i r1 f r2 e where "parse_int_part r0 = Some (i, r1)"
    "parse_fraction r1 = Some (f, r2)" "parse_exponent r2 = Some (e, r)"
    by (auto simp: parse_number_def p_def [symmetric] split: option.splits)
  with parse_int_part_shorter parse_fraction_shorter parse_exponent_shorter
  have "length r1 < length r0" "length r2 \<le> length r1" "length r \<le> length r2"
    by blast+
  with r0 show ?thesis by simp
qed

lemma parse_literal_shorter: "parse_literal s = Some (v, r) \<Longrightarrow> length r < length s"
proof -
  assume a: "parse_literal s = Some (v, r)"
  have "take n s = js lit \<Longrightarrow> lit \<noteq> [] \<Longrightarrow> n \<le> length lit \<Longrightarrow> 0 < n \<Longrightarrow> length (drop n s) < length s" for n lit
    by (cases s) (auto simp: js_def)
  from this [of 4 "''true''"] this [of 5 "''false''"] this [of 4 "''null''"] a
  show ?thesis
    by (auto simp: parse_literal_def split: if_splits)
qed

lemma cons_result_eq_Some:
  "cons_result x p = Some y \<longleftrightarrow> (\<exists>xs r. p = Some (xs, r) \<and> y = (x # xs, r))"
  by (cases p) (auto simp: cons_result_def)

lemma parse_fuel_Suc:
  "(parse_value n s = Some a \<longrightarrow> parse_value (Suc n) s = Some a) \<and>
   (parse_elements n s = Some b \<longrightarrow> parse_elements (Suc n) s = Some b) \<and>
   (parse_members n s = Some c \<longrightarrow> parse_members (Suc n) s = Some c)"
proof (induction n arbitrary: s a b c)
  case 0
  show ?case by simp
next
  case (Suc n)
  have v: "parse_value (Suc n) t = Some x \<Longrightarrow> parse_value (Suc (Suc n)) t = Some x" for t x
  proof -
    assume a: "parse_value (Suc n) t = Some x"
    have e: "parse_elements n u = Some y \<Longrightarrow> parse_elements (Suc n) u = Some y" for u y
      using Suc.IH by blast
    have m: "parse_members n u = Some y \<Longrightarrow> parse_members (Suc n) u = Some y" for u y
      using Suc.IH by blast
    show ?thesis
      using a
      by (subst parse_value.simps(2), subst (asm) parse_value.simps(2))
         (auto split: list.splits if_splits option.splits dest!: e m
            simp del: parse_elements.simps parse_members.simps)
  qed
  have e: "parse_elements (Suc n) t = Some x \<Longrightarrow> parse_elements (Suc (Suc n)) t = Some x" for t x
  proof -
    assume a: "parse_elements (Suc n) t = Some x"
    have e: "parse_elements n u = Some y \<Longrightarrow> parse_elements (Suc n) u = Some y" for u y
      using Suc.IH by blast
    have v': "parse_value n u = Some y \<Longrightarrow> parse_value (Suc n) u = Some y" for u y
      using Suc.IH by blast
    show ?thesis
      using a
      by (subst parse_elements.simps(2), subst (asm) parse_elements.simps(2))
         (auto split: list.splits if_splits option.splits dest!: e v' simp: cons_result_eq_Some
            simp del: parse_elements.simps parse_value.simps)
  qed
  have m: "parse_members (Suc n) t = Some x \<Longrightarrow> parse_members (Suc (Suc n)) t = Some x" for t x
  proof -
    assume a: "parse_members (Suc n) t = Some x"
    have m: "parse_members n u = Some y \<Longrightarrow> parse_members (Suc n) u = Some y" for u y
      using Suc.IH by blast
    have v': "parse_value n u = Some y \<Longrightarrow> parse_value (Suc n) u = Some y" for u y
      using Suc.IH by blast
    show ?thesis
      using a
      by (subst parse_members.simps(2), subst (asm) parse_members.simps(2))
         (auto split: list.splits if_splits option.splits dest!: m v' simp: cons_result_eq_Some
            simp del: parse_members.simps parse_value.simps)
  qed
  from v e m show ?case by blast
qed

lemma parse_fuel_mono:
  assumes "n \<le> m"
  shows "parse_value n s = Some a \<Longrightarrow> parse_value m s = Some a"
    and "parse_elements n s = Some b \<Longrightarrow> parse_elements m s = Some b"
    and "parse_members n s = Some c \<Longrightarrow> parse_members m s = Some c"
  using assms
proof (induction m)
  case 0
  { case 1 then show ?case by simp }
  { case 2 then show ?case by simp }
  { case 3 then show ?case by simp }
next
  case (Suc m)
  { case 1 then show ?case
      using Suc.IH(1) parse_fuel_Suc [of m s a] by (cases "n = Suc m") auto }
  { case 2 then show ?case
      using Suc.IH(2) parse_fuel_Suc [of m s _ b] by (cases "n = Suc m") auto }
  { case 3 then show ?case
      using Suc.IH(3) parse_fuel_Suc [of m s _ _ c] by (cases "n = Suc m") auto }
qed

lemma parse_value_enough:
  assumes E: "\<And>u vs r. parse_elements n u = Some (vs, r) \<Longrightarrow>
                length r < length u \<and> parse_elements (length u - length r) u = Some (vs, r)"
    and M: "\<And>u ms r. parse_members n u = Some (ms, r) \<Longrightarrow>
                length r < length u \<and> parse_members (length u - length r) u = Some (ms, r)"
    and a: "parse_value (Suc n) s = Some (v, r)"
  shows "length r < length s \<and> parse_value (length s - length r) s = Some (v, r)"
proof -
  from a obtain c cs where sk: "skip_ws s = c # cs"
    by (cases "skip_ws s") auto
  then have cs: "length cs < length s"
    by (rule skip_ws_Cons_length)
  have fin: "length r < length s \<and> parse_value (length s - length r) s = Some (v, r)"
    if short: "length r < length s"
      and step: "\<And>k. length s - length r = Suc k \<Longrightarrow> parse_value (Suc k) s = Some (v, r)"
  proof -
    from short obtain k where "length s - length r = Suc k"
      by (cases "length s - length r") auto
    with step [OF this] short show ?thesis by simp
  qed
  consider (str) "c = 0x22" | (arr) "c \<noteq> 0x22" "c = 0x5B" | (obj) "c \<noteq> 0x22" "c \<noteq> 0x5B" "c = 0x7B"
    | (num) "c \<noteq> 0x22" "c \<noteq> 0x5B" "c \<noteq> 0x7B" "c = 0x2D \<or> is_digit c"
    | (lit) "c \<noteq> 0x22" "c \<noteq> 0x5B" "c \<noteq> 0x7B" "\<not> (c = 0x2D \<or> is_digit c)"
    by blast
  then show ?thesis
  proof cases
    case str
    with a sk obtain x where x: "parse_string_chars cs = Some (x, r)" and v: "v = JString x"
      by (auto split: option.splits)
    from parse_string_chars_shorter [OF x] cs have "length r < length s" by simp
    then show ?thesis
      using sk str x v by (intro fin) simp_all
  next
    case arr
    from a sk arr obtain d ds where sk2: "skip_ws cs = d # ds"
      by (cases "skip_ws cs") auto
    show ?thesis
    proof (cases "d = 0x5D")
      case True
      with a sk arr sk2 have "v = JArray []" "r = ds" by auto
      moreover have "length ds < length s"
        using skip_ws_Cons_length [OF sk2] cs by simp
      ultimately show ?thesis
        using sk arr sk2 True by (intro fin) simp_all
    next
      case False
      with a sk arr sk2 obtain vs where e: "parse_elements n cs = Some (vs, r)" and v: "v = JArray vs"
        by (auto split: option.splits)
      from E [OF e] have r: "length r < length cs"
        and e': "parse_elements (length cs - length r) cs = Some (vs, r)" by simp_all
      show ?thesis
      proof (rule fin)
        show "length r < length s" using r cs by simp
      next
        fix k assume k: "length s - length r = Suc k"
        with cs have "length cs - length r \<le> k" by simp
        from parse_fuel_mono(2) [OF this e'] show "parse_value (Suc k) s = Some (v, r)"
          using sk arr sk2 False v by (simp del: parse_elements.simps)
      qed
    qed
  next
    case obj
    from a sk obj obtain d ds where sk2: "skip_ws cs = d # ds"
      by (cases "skip_ws cs") auto
    show ?thesis
    proof (cases "d = 0x7D")
      case True
      with a sk obj sk2 have "v = JObject []" "r = ds" by auto
      moreover have "length ds < length s"
        using skip_ws_Cons_length [OF sk2] cs by simp
      ultimately show ?thesis
        using sk obj sk2 True by (intro fin) simp_all
    next
      case False
      with a sk obj sk2 obtain ms where e: "parse_members n cs = Some (ms, r)" and v: "v = JObject ms"
        by (auto split: option.splits)
      from M [OF e] have r: "length r < length cs"
        and e': "parse_members (length cs - length r) cs = Some (ms, r)" by simp_all
      show ?thesis
      proof (rule fin)
        show "length r < length s" using r cs by simp
      next
        fix k assume k: "length s - length r = Suc k"
        with cs have "length cs - length r \<le> k" by simp
        from parse_fuel_mono(3) [OF this e'] show "parse_value (Suc k) s = Some (v, r)"
          using sk obj sk2 False v by (simp del: parse_members.simps)
      qed
    qed
  next
    case num
    with a sk obtain l where l: "parse_number (c # cs) = Some (l, r)" and v: "v = JNumber l"
      by (auto split: option.splits)
    from parse_number_shorter [OF l] cs length_skip_ws [of s] sk have "length r < length s" by simp
    then show ?thesis
      using sk num l v by (intro fin) auto
  next
    case lit
    with a sk have l: "parse_literal (c # cs) = Some (v, r)"
      by auto
    from parse_literal_shorter [OF l] cs length_skip_ws [of s] sk have "length r < length s" by simp
    then show ?thesis
      using sk lit l by (intro fin) auto
  qed
qed

lemma parse_elements_enough:
  assumes V: "\<And>u v r. parse_value n u = Some (v, r) \<Longrightarrow>
                length r < length u \<and> parse_value (length u - length r) u = Some (v, r)"
    and E: "\<And>u vs r. parse_elements n u = Some (vs, r) \<Longrightarrow>
                length r < length u \<and> parse_elements (length u - length r) u = Some (vs, r)"
    and a: "parse_elements (Suc n) s = Some (vs, r)"
  shows "length r < length s \<and> parse_elements (length s - length r) s = Some (vs, r)"
proof -
  from a obtain v r1 where pv: "parse_value n s = Some (v, r1)"
    by (auto split: option.splits)
  from V [OF pv] have r1: "length r1 < length s"
    and pv': "parse_value (length s - length r1) s = Some (v, r1)" by simp_all
  from a pv obtain c cs where sk: "skip_ws r1 = c # cs"
    by (cases "skip_ws r1") auto
  then have cs: "length cs < length r1"
    by (rule skip_ws_Cons_length)
  have fin: "length r < length s \<and> parse_elements (length s - length r) s = Some (vs, r)"
    if short: "length r < length s"
      and step: "\<And>k. length s - length r = Suc k \<Longrightarrow> parse_elements (Suc k) s = Some (vs, r)"
  proof -
    from short obtain k where "length s - length r = Suc k"
      by (cases "length s - length r") auto
    with step [OF this] short show ?thesis by simp
  qed
  show ?thesis
  proof (cases "c = 0x2C")
    case True
    with a pv sk obtain vs' where pe: "parse_elements n cs = Some (vs', r)" and vs: "vs = v # vs'"
      by (auto simp: cons_result_eq_Some)
    from E [OF pe] have r: "length r < length cs"
      and pe': "parse_elements (length cs - length r) cs = Some (vs', r)" by simp_all
    show ?thesis
    proof (rule fin)
      show "length r < length s" using r cs r1 by simp
    next
      fix k assume k: "length s - length r = Suc k"
      with r cs r1 have "length s - length r1 \<le> k" "length cs - length r \<le> k" by simp_all
      from parse_fuel_mono(1) [OF this(1) pv'] parse_fuel_mono(2) [OF this(2) pe']
      show "parse_elements (Suc k) s = Some (vs, r)"
        using sk True vs
        by (subst parse_elements.simps(2))
           (simp add: cons_result_def del: parse_elements.simps parse_value.simps)
    qed
  next
    case False
    with a pv sk have c: "c = 0x5D" and vs: "vs = [v]" and rr: "r = cs"
      by (auto split: if_splits)
    show ?thesis
    proof (rule fin)
      show "length r < length s" using rr cs r1 by simp
    next
      fix k assume k: "length s - length r = Suc k"
      with rr cs r1 have "length s - length r1 \<le> k" by simp
      from parse_fuel_mono(1) [OF this pv']
      show "parse_elements (Suc k) s = Some (vs, r)"
        using sk c vs rr
        by (subst parse_elements.simps(2)) (simp del: parse_elements.simps parse_value.simps)
    qed
  qed
qed

lemma parse_members_enough:
  assumes V: "\<And>u v r. parse_value n u = Some (v, r) \<Longrightarrow>
                length r < length u \<and> parse_value (length u - length r) u = Some (v, r)"
    and M: "\<And>u ms r. parse_members n u = Some (ms, r) \<Longrightarrow>
                length r < length u \<and> parse_members (length u - length r) u = Some (ms, r)"
    and a: "parse_members (Suc n) s = Some (ms, r)"
  shows "length r < length s \<and> parse_members (length s - length r) s = Some (ms, r)"
proof -
  from a obtain q qs where sk0: "skip_ws s = q # qs"
    by (cases "skip_ws s") auto
  with a have q: "q = 0x22"
    by (auto split: if_splits)
  from a sk0 q obtain key r0 where key: "parse_string_chars qs = Some (key, r0)"
    by (auto split: option.splits)
  from a sk0 q key obtain c cs where sk1: "skip_ws r0 = c # cs"
    by (cases "skip_ws r0") auto
  with a sk0 q key have c: "c = 0x3A"
    by (auto split: if_splits)
  from a sk0 q key sk1 c obtain v r1 where pv: "parse_value n cs = Some (v, r1)"
    by (auto split: option.splits)
  from a sk0 q key sk1 c pv obtain e es where sk2: "skip_ws r1 = e # es"
    by (cases "skip_ws r1") auto
  from V [OF pv] have r1: "length r1 < length cs"
    and pv': "parse_value (length cs - length r1) cs = Some (v, r1)" by simp_all
  have cs: "length cs < length s"
    using skip_ws_Cons_length [OF sk0] parse_string_chars_shorter [OF key]
      skip_ws_Cons_length [OF sk1] by simp
  have es: "length es < length r1"
    using sk2 by (rule skip_ws_Cons_length)
  have fin: "length r < length s \<and> parse_members (length s - length r) s = Some (ms, r)"
    if short: "length r < length s"
      and step: "\<And>k. length s - length r = Suc k \<Longrightarrow> parse_members (Suc k) s = Some (ms, r)"
  proof -
    from short obtain k where "length s - length r = Suc k"
      by (cases "length s - length r") auto
    with step [OF this] short show ?thesis by simp
  qed
  show ?thesis
  proof (cases "e = 0x2C")
    case True
    with a sk0 q key sk1 c pv sk2 obtain ms' where pm: "parse_members n es = Some (ms', r)"
      and ms: "ms = (key, v) # ms'"
      by (auto simp: cons_result_eq_Some)
    from M [OF pm] have r: "length r < length es"
      and pm': "parse_members (length es - length r) es = Some (ms', r)" by simp_all
    show ?thesis
    proof (rule fin)
      show "length r < length s" using r es r1 cs by simp
    next
      fix k assume k: "length s - length r = Suc k"
      with r es r1 cs have "length cs - length r1 \<le> k" "length es - length r \<le> k" by simp_all
      from parse_fuel_mono(1) [OF this(1) pv'] parse_fuel_mono(3) [OF this(2) pm']
      show "parse_members (Suc k) s = Some (ms, r)"
        using sk0 q key sk1 c sk2 True ms
        by (subst parse_members.simps(2))
           (simp add: cons_result_def del: parse_members.simps parse_value.simps)
    qed
  next
    case False
    with a sk0 q key sk1 c pv sk2 have e: "e = 0x7D" and ms: "ms = [(key, v)]" and rr: "r = es"
      by (auto split: if_splits)
    show ?thesis
    proof (rule fin)
      show "length r < length s" using rr es r1 cs by simp
    next
      fix k assume k: "length s - length r = Suc k"
      with rr es r1 cs have "length cs - length r1 \<le> k" by simp
      from parse_fuel_mono(1) [OF this pv']
      show "parse_members (Suc k) s = Some (ms, r)"
        using sk0 q key sk1 c sk2 e ms rr
        by (subst parse_members.simps(2)) (simp del: parse_members.simps parse_value.simps)
    qed
  qed
qed

lemma parse_fuel_enough:
  "(parse_value n s = Some (v, r) \<longrightarrow>
      length r < length s \<and> parse_value (length s - length r) s = Some (v, r)) \<and>
   (parse_elements n s = Some (vs, r) \<longrightarrow>
      length r < length s \<and> parse_elements (length s - length r) s = Some (vs, r)) \<and>
   (parse_members n s = Some (ms, r) \<longrightarrow>
      length r < length s \<and> parse_members (length s - length r) s = Some (ms, r))"
proof (induction n arbitrary: s v r vs ms)
  case 0
  show ?case by simp
next
  case (Suc n)
  have V: "parse_value n u = Some (v, r) \<Longrightarrow>
      length r < length u \<and> parse_value (length u - length r) u = Some (v, r)" for u v r
    using Suc.IH by blast
  have E: "parse_elements n u = Some (vs, r) \<Longrightarrow>
      length r < length u \<and> parse_elements (length u - length r) u = Some (vs, r)" for u vs r
    using Suc.IH by blast
  have M: "parse_members n u = Some (ms, r) \<Longrightarrow>
      length r < length u \<and> parse_members (length u - length r) u = Some (ms, r)" for u ms r
    using Suc.IH by blast
  show ?case
    using parse_value_enough [OF E M] parse_elements_enough [OF V E] parse_members_enough [OF V M]
    by blast
qed

text \<open>
  The bound used by \<open>JSON_parse\<close> never cuts a parse short: a text that parses under some
  bound parses, with the same result, under the bound of its length.
\<close>

lemma parse_value_fuel:
  assumes "parse_value n s = Some (v, r)"
  shows "parse_value (length s) s = Some (v, r)"
proof -
  from parse_fuel_enough [of n s v r] assms
  have "parse_value (length s - length r) s = Some (v, r)" by blast
  then show ?thesis
    by (rule parse_fuel_mono(1) [rotated]) simp
qed

lemma JSON_parse_None_iff:
  "JSON_parse s = None \<longleftrightarrow> (\<forall>n v r. parse_value n s = Some (v, r) \<longrightarrow> skip_ws r \<noteq> [])"
proof
  assume n: "JSON_parse s = None"
  show "\<forall>n v r. parse_value n s = Some (v, r) \<longrightarrow> skip_ws r \<noteq> []"
  proof (intro allI impI)
    fix n v r assume "parse_value n s = Some (v, r)"
    then have "parse_value (length s) s = Some (v, r)" by (rule parse_value_fuel)
    with n show "skip_ws r \<noteq> []"
      by (auto simp: JSON_parse_def split: if_splits)
  qed
next
  assume "\<forall>n v r. parse_value n s = Some (v, r) \<longrightarrow> skip_ws r \<noteq> []"
  then show "JSON_parse s = None"
    by (auto simp: JSON_parse_def split: option.splits)
qed

section \<open>Helper facts on strings, watchlists and storage\<close>

lemma js_append: "js (a @ b) = js a @ js b"
  by (simp add: js_def)

lemma trim_blank: "trim q = [] \<longleftrightarrow> (\<forall>c\<in>set q. is_white_space c)"
proof
  assume all: "\<forall>c\<in>set q. is_white_space c"
  then show "trim q = []" by (auto simp: trim_def dest: set_dropWhileD)
next
  assume "trim q = []"
  then have a: "\<forall>c\<in>set (dropWhile is_white_space q). is_white_space c"
    by (simp add: trim_def)
  have "dropWhile is_white_space q = []"
  proof (rule ccontr)
    assume ne: "dropWhile is_white_space q \<noteq> []"
    then have "\<not> is_white_space (hd (dropWhile is_white_space q))"
      by (rule hd_dropWhile)
    moreover have "hd (dropWhile is_white_space q) \<in> set (dropWhile is_white_space q)"
      using ne by simp
    ultimately show False using a by blast
  qed
  then show "\<forall>c\<in>set q. is_white_space c" by simp
qed

lemma entries_with_add:
  "entries_with t (handleAddToWatchlist s w) =
     (if ticker s = t \<and> entries_with t w = 0 then 1 else entries_with t w)"
  by (auto simp: handleAddToWatchlist_def entries_with_def list_ex_iff filter_empty_conv)

lemma unique_tickers_add: "unique_tickers w \<Longrightarrow> unique_tickers (handleAddToWatchlist s w)"
  by (auto simp: unique_tickers_def handleAddToWatchlist_def list_ex_iff)

lemma unique_tickers_remove: "unique_tickers w \<Longrightarrow> unique_tickers (handleRemoveFromWatchlist t w)"
  by (simp add: unique_tickers_def handleRemoveFromWatchlist_def distinct_map_filter)

lemma unique_tickers_action: "unique_tickers w \<Longrightarrow> unique_tickers (apply_action w a)"
  by (cases a) (simp_all add: unique_tickers_add unique_tickers_remove)

lemma unique_tickers_run: "unique_tickers w \<Longrightarrow> unique_tickers (run acts w)"
  unfolding run_def by (induction acts arbitrary: w) (simp_all add: unique_tickers_action)

lemma setItem_Inr:
  "setItem st k v = Inr st' \<longleftrightarrow>
     \<not> access_denied st \<and> length k + length v \<le> quota st \<and> st' = st\<lparr>items := (items st)(k \<mapsto> v)\<rparr>"
  by (auto simp: setItem_def)

lemma length_JSON_stringify: "2 \<le> length (JSON_stringify w)"
  by (simp add: JSON_stringify_def)

lemma JSON_stringify_not_empty: "JSON_stringify w \<noteq> []"
  by (simp add: JSON_stringify_def)

lemma JSON_stringify_empty: "JSON_stringify [] = js ''[]''"
  by (simp add: JSON_stringify_def js_def)

lemma mount_after_write:
  assumes "setItem st storage_key (JSON_stringify w) = Inr st'"
  shows "mount st' = Started \<lparr>state = initial_state\<lparr>watchlist := w\<rparr>, storage = st', console = []\<rparr>"
proof -
  from assms have ok: "\<not> access_denied st"
    and fits: "length storage_key + length (JSON_stringify w) \<le> quota st"
    and st': "st' = st\<lparr>items := (items st)(storage_key \<mapsto> JSON_stringify w)\<rparr>"
    by (simp_all add: setItem_Inr)
  have h: "hydrate st' = (Some (JArray (map json_of_Stock w)), [])"
    using ok by (simp add: hydrate_def hydrate_try_def getItem_def st' JSON_stringify_not_empty
        JSON_parse_stringify)
  have "length storage_key + length (JSON_stringify []) \<le> quota st"
    using fits length_JSON_stringify [of w] by (simp add: JSON_stringify_def)
  then have p1: "persist [] st' = (st\<lparr>items := (items st)(storage_key \<mapsto> JSON_stringify [])\<rparr>, [])"
    using ok by (simp add: persist_def setItem_def st')
  have p2: "persist w (st\<lparr>items := (items st)(storage_key \<mapsto> JSON_stringify [])\<rparr>) = (st', [])"
    using ok fits by (simp add: persist_def setItem_def st')
  show ?thesis
    by (simp add: mount_def h initial_state_def p1 [unfolded initial_state_def] as_watchlist_json p2
          del: as_watchlist.simps)
qed

lemma duplicate_text_eq: "duplicate_text = JSON_stringify [stock_A, stock_A]"
  by (simp add: duplicate_text_def JSON_stringify_def stringify_Stock_def stringify_property_def
        QuoteJSONString_def stock_A_def js_def quote_code_unit_def is_leading_surrogate_def
        is_trailing_surrogate_def)

lemma mount_duplicate: "mount (stored duplicate_text) = Started duplicate_world"
proof -
  have "length storage_key + length duplicate_text \<le> 5000000"
    by (simp add: storage_key_def duplicate_text_def js_def)
  then have "setItem fresh_storage storage_key (JSON_stringify [stock_A, stock_A]) =
      Inr (stored duplicate_text)"
    by (simp add: setItem_def fresh_storage_def stored_def duplicate_text_eq [symmetric])
  from mount_after_write [OF this] show ?thesis
    by (simp add: duplicate_world_def)
qed

lemma persist_ok: "persist w st = (st', []) \<longleftrightarrow> setItem st storage_key (JSON_stringify w) = Inr st'"
  by (auto simp: persist_def split: sum.splits)

lemma JSON_parse_empty: "JSON_parse [] = None"
  by (simp add: JSON_parse_def)

lemma mount_no_update:
  "hydrate st = (None, l) \<Longrightarrow>
   mount st = Started \<lparr>state = initial_state, storage = fst (persist [] st),
                       console = l @ snd (persist [] st)\<rparr>"
  by (simp add: mount_def initial_state_def split: prod.splits)

lemma load_failure_logged_iff:
  "load_failure_logged \<lparr>state = s, storage = st, console = l\<rparr> \<longleftrightarrow>
     (\<exists>e. (js ''Could not load watchlist from localStorage'', e) \<in> set l)"
  by (force simp: load_failure_logged_def list_ex_iff)

lemma snd_persist:
  "(m, e) \<in> set (snd (persist w st)) \<Longrightarrow> m = js ''Could not save watchlist to localStorage''"
  by (auto simp: persist_def split: sum.splits)

lemma messages_differ:
  "js ''Could not save watchlist to localStorage'' \<noteq> js ''Could not load watchlist from localStorage''"
  by (simp add: js_def)

lemma sample_text_eq: "sample_text = JSON_stringify [stock_A, stock_B]"
  by (simp add: sample_text_def JSON_stringify_def stringify_Stock_def stringify_property_def
        QuoteJSONString_def stock_A_def stock_B_def js_def quote_code_unit_def
        is_leading_surrogate_def is_trailing_surrogate_def)

lemma JSON_parse_not_json: "JSON_parse (js ''not json'') = None"
  by (simp add: JSON_parse_def js_def skip_ws_def is_json_ws_def is_digit_def parse_literal_def)

lemma persist_sample: "persist [stock_A, stock_B] fresh_storage = (stored sample_text, [])"
proof -
  have "length storage_key + length sample_text \<le> 5000000"
    by (simp add: storage_key_def sample_text_def js_def)
  then show ?thesis
    by (simp add: persist_def setItem_def fresh_storage_def stored_def sample_text_eq [symmetric])
qed

lemma mount_sample:
  "mount (stored sample_text) =
     Started \<lparr>state = initial_state\<lparr>watchlist := [stock_A, stock_B]\<rparr>,
              storage = stored sample_text, console = []\<rparr>"
  using persist_sample by (simp add: persist_ok mount_after_write)

section \<open>The watchlist invariant\<close>

text \<open>
  C1, as stated: every watchlist reached from startup by add and remove has no two entries
  with the same ticker. It fails: the hydrated value is stored as parsed, so a stored list
  with a repeated ticker becomes the watchlist.
\<close>

theorem hydrated_duplicates:
  "mount (stored duplicate_text) = Started duplicate_world \<and>
   \<not> unique_tickers (run [] (watchlist (state duplicate_world)))"
  by (simp add: mount_duplicate) (simp add: duplicate_world_def run_def unique_tickers_def)

text \<open>
  C1, amended: when the watchlist at startup (the empty one, or the hydrated one) has no two
  entries with the same ticker, neither has any watchlist reached from it by add and remove.
\<close>

theorem unique_tickers_reachable:
  assumes "mount st = Started w" and "unique_tickers (watchlist (state w))"
  shows "unique_tickers (run acts (watchlist (state w)))"
  using assms(2) by (rule unique_tickers_run)

theorem unique_tickers_reachable_witness:
  "mount (stored sample_text) =
     Started \<lparr>state = initial_state\<lparr>watchlist := [stock_A, stock_B]\<rparr>,
              storage = stored sample_text, console = []\<rparr> \<and>
   unique_tickers [stock_A, stock_B] \<and>
   run [Remove (js ''A''), Add stock_A', Add stock_B] [stock_A, stock_B] = [stock_B, stock_A'] \<and>
   unique_tickers [stock_B, stock_A']"
proof -
  let ?w = "\<lparr>state = initial_state\<lparr>watchlist := [stock_A, stock_B]\<rparr>,
            storage = stored sample_text, console = []\<rparr>"
  have w: "watchlist (state ?w) = [stock_A, stock_B]"
    by simp
  have u: "unique_tickers [stock_A, stock_B]"
    by (simp add: unique_tickers_def stock_A_def stock_B_def js_def)
  have r: "run [Remove (js ''A''), Add stock_A', Add stock_B] [stock_A, stock_B] = [stock_B, stock_A']"
    by (simp add: run_def handleAddToWatchlist_def handleRemoveFromWatchlist_def
          stock_A_def stock_A'_def stock_B_def js_def)
  from unique_tickers_reachable [OF mount_sample, of "[Remove (js ''A''), Add stock_A', Add stock_B]"]
  have "unique_tickers [stock_B, stock_A']"
    unfolding w r using u by simp
  with mount_sample u r show ?thesis by simp
qed

section \<open>Adding and removing\<close>

text \<open>
  C2, as stated: on every watchlist, two adds with the same ticker leave exactly one entry
  with that ticker. It fails on a watchlist that already holds the ticker twice, as the one
  hydrated from \<open>duplicate_text\<close> does: both adds return the list unchanged.
\<close>

theorem add_twice_on_duplicates:
  "mount (stored duplicate_text) = Started duplicate_world \<and>
   entries_with (js ''A'')
     (handleAddToWatchlist stock_A' (handleAddToWatchlist stock_A (watchlist (state duplicate_world)))) = 2"
  by (simp add: mount_duplicate)
     (simp add: duplicate_world_def handleAddToWatchlist_def entries_with_def stock_A_def stock_A'_def)

text \<open>
  C2, amended: the second add of a ticker is a no-op on every watchlist, and when the
  watchlist holds the ticker at most once before the two adds, it holds it exactly once
  after them.
\<close>

theorem add_twice:
  assumes "ticker s1 = t" and "ticker s2 = t"
  shows "handleAddToWatchlist s2 (handleAddToWatchlist s1 w) = handleAddToWatchlist s1 w \<and>
         (entries_with t w \<le> 1 \<longrightarrow>
            entries_with t (handleAddToWatchlist s2 (handleAddToWatchlist s1 w)) = 1)"
proof
  show "handleAddToWatchlist s2 (handleAddToWatchlist s1 w) = handleAddToWatchlist s1 w"
    using assms by (auto simp: handleAddToWatchlist_def list_ex_iff)
  show "entries_with t w \<le> 1 \<longrightarrow>
          entries_with t (handleAddToWatchlist s2 (handleAddToWatchlist s1 w)) = 1"
    using assms by (auto simp: entries_with_add)
qed

theorem add_twice_witness:
  "ticker stock_A = js ''A'' \<and> ticker stock_A' = js ''A'' \<and> entries_with (js ''A'') [stock_B] \<le> 1 \<and>
   handleAddToWatchlist stock_A' (handleAddToWatchlist stock_A [stock_B]) = [stock_B, stock_A] \<and>
   entries_with (js ''A'') (handleAddToWatchlist stock_A' (handleAddToWatchlist stock_A [stock_B])) = 1"
proof -
  have a: "ticker stock_A = js ''A''" and a': "ticker stock_A' = js ''A''"
    by (simp_all add: stock_A_def stock_A'_def)
  have b: "entries_with (js ''A'') [stock_B] \<le> 1"
    by (simp add: entries_with_def)
  have c: "handleAddToWatchlist stock_A [stock_B] = [stock_B, stock_A]"
    by (simp add: handleAddToWatchlist_def stock_A_def stock_B_def js_def)
  note t = add_twice [OF a a', of "[stock_B]"]
  from t have r: "handleAddToWatchlist stock_A' (handleAddToWatchlist stock_A [stock_B]) =
      handleAddToWatchlist stock_A [stock_B]"
    by (rule conjunct1)
  from t b have e: "entries_with (js ''A'')
      (handleAddToWatchlist stock_A' (handleAddToWatchlist stock_A [stock_B])) = 1"
    by blast
  from a a' b r e c show ?thesis by simp
qed

text \<open>
  C3: removing a ticker that no entry carries leaves the watchlist as it is; in every case
  the result holds no entry with the ticker, and the other entries are kept, in their order.
\<close>

theorem remove_spec:
  "((\<forall>s\<in>set w. ticker s \<noteq> t) \<longrightarrow> handleRemoveFromWatchlist t w = w) \<and>
   set (handleRemoveFromWatchlist t w) = {s \<in> set w. ticker s \<noteq> t} \<and>
   filter (\<lambda>s. ticker s = t) (handleRemoveFromWatchlist t w) = [] \<and>
   filter (\<lambda>s. ticker s \<noteq> t) (handleRemoveFromWatchlist t w) = filter (\<lambda>s. ticker s \<noteq> t) w"
  by (auto simp: handleRemoveFromWatchlist_def filter_id_conv)

theorem remove_spec_witness:
  "ticker stock_A \<noteq> js ''B'' \<and> ticker stock_A' \<noteq> js ''B'' \<and>
   handleRemoveFromWatchlist (js ''B'') [stock_A, stock_A'] = [stock_A, stock_A'] \<and>
   handleRemoveFromWatchlist (js ''A'') [stock_A, stock_B, stock_A'] = [stock_B]"
proof -
  have h: "ticker stock_A \<noteq> js ''B''" "ticker stock_A' \<noteq> js ''B''"
    by (simp_all add: stock_A_def stock_A'_def js_def)
  then have "\<forall>s\<in>set [stock_A, stock_A']. ticker s \<noteq> js ''B''"
    by simp
  with remove_spec [of "[stock_A, stock_A']" "js ''B''"]
  have "handleRemoveFromWatchlist (js ''B'') [stock_A, stock_A'] = [stock_A, stock_A']"
    by blast
  moreover have "handleRemoveFromWatchlist (js ''A'') [stock_A, stock_B, stock_A'] = [stock_B]"
    by (simp add: handleRemoveFromWatchlist_def stock_A_def stock_A'_def stock_B_def js_def)
  ultimately show ?thesis using h by simp
qed

text \<open>
  C4: the membership test is true on the watchlist right after an add of a stock with the
  ticker, and false on the watchlist right after a remove of the ticker.
\<close>

theorem contains_after_add_remove:
  "(ticker s = t \<longrightarrow> isStockInWatchlist (handleAddToWatchlist s w) t) \<and>
   \<not> isStockInWatchlist (handleRemoveFromWatchlist t w) t"
  by (auto simp: isStockInWatchlist_def handleAddToWatchlist_def handleRemoveFromWatchlist_def
        list_ex_iff)

theorem contains_after_add_remove_witness:
  "ticker stock_A = js ''A'' \<and> isStockInWatchlist (handleAddToWatchlist stock_A [stock_B]) (js ''A'') \<and>
   \<not> isStockInWatchlist (handleRemoveFromWatchlist (js ''A'') [stock_B]) (js ''A'')"
proof -
  have a: "ticker stock_A = js ''A''" by (simp add: stock_A_def)
  from contains_after_add_remove [of stock_A "js ''A''" "[stock_B]"] a show ?thesis by simp
qed

section \<open>Query submission\<close>

text \<open>
  C5: a query that is empty or holds only white space is refused: the service client is
  not invoked, whatever it would answer, and the error becomes the validation message.
\<close>

theorem blank_submit:
  assumes "\<forall>c\<in>set q. is_white_space c"
  shows "handleSubmit fetchPromisingStocks q s =
           (s\<lparr>error := Some (js ''Please enter a topic to search for.'')\<rparr>, [])"
  using assms by (simp add: handleSubmit_def handleSubmit_before_await_def trim_blank)

theorem blank_submit_witness:
  "is_white_space 0x20 \<and> is_white_space 0x09 \<and> is_white_space 0x3000 \<and>
   handleSubmit (\<lambda>q. Fulfilled \<lparr>stocks = [stock_A], sources = []\<rparr>) [0x20, 0x09, 0x3000] initial_state =
     (initial_state\<lparr>error := Some (js ''Please enter a topic to search for.'')\<rparr>, []) \<and>
   handleSubmit (\<lambda>q. Rejected Not_an_Error) [] initial_state =
     (initial_state\<lparr>error := Some (js ''Please enter a topic to search for.'')\<rparr>, [])"
proof -
  have w: "is_white_space 0x20" "is_white_space 0x09" "is_white_space 0x3000"
    by (simp_all add: is_white_space_def)
  then have h: "\<forall>c\<in>set [0x20, 0x09, 0x3000]. is_white_space c"
    by simp
  have e: "\<forall>c\<in>set []. is_white_space c"
    by simp
  from blank_submit [OF h] blank_submit [OF e] w show ?thesis
    by simp
qed

text \<open>
  C6: when the service call of a non-blank query fails with an error object, the error
  state is the fixed prefix, the message of the error and the fixed suffix; when it fails
  with anything else, the error state is the generic message. The stock list is empty in
  both cases.
\<close>

theorem failed_submit:
  assumes "trim q \<noteq> []"
  shows "(fetchPromisingStocks q = Rejected (Error_instance m) \<longrightarrow>
            error (fst (handleSubmit fetchPromisingStocks q s)) =
              Some (js ''Failed to fetch stock data: '' @ m @ js ''. Please try again.'') \<and>
            result_stocks (fst (handleSubmit fetchPromisingStocks q s)) = []) \<and>
         (fetchPromisingStocks q = Rejected Not_an_Error \<longrightarrow>
            error (fst (handleSubmit fetchPromisingStocks q s)) = Some (js ''An unknown error occurred.'') \<and>
            result_stocks (fst (handleSubmit fetchPromisingStocks q s)) = [])"
  using assms
  by (simp add: handleSubmit_def handleSubmit_before_await_def handleSubmit_after_await_def)

theorem failed_submit_witness:
  "trim (js ''AI technology stocks'') \<noteq> [] \<and>
   error (fst (handleSubmit (\<lambda>q. Rejected (Error_instance (js ''timeout'')))
                 (js ''AI technology stocks'') (initial_state\<lparr>result_stocks := [stock_B]\<rparr>))) =
     Some (js ''Failed to fetch stock data: timeout. Please try again.'') \<and>
   result_stocks (fst (handleSubmit (\<lambda>q. Rejected (Error_instance (js ''timeout'')))
                 (js ''AI technology stocks'') (initial_state\<lparr>result_stocks := [stock_B]\<rparr>))) = [] \<and>
   error (fst (handleSubmit (\<lambda>q. Rejected Not_an_Error)
                 (js ''AI technology stocks'') (initial_state\<lparr>result_stocks := [stock_B]\<rparr>))) =
     Some (js ''An unknown error occurred.'')"
proof -
  have t: "trim (js ''AI technology stocks'') \<noteq> []"
    by (simp add: trim_blank js_def is_white_space_def)
  have m: "js ''Failed to fetch stock data: '' @ js ''timeout'' @ js ''. Please try again.'' =
      js ''Failed to fetch stock data: timeout. Please try again.''"
    by (simp add: js_def)
  from failed_submit [OF t, of "\<lambda>q. Rejected (Error_instance (js ''timeout''))" "js ''timeout''"
         "initial_state\<lparr>result_stocks := [stock_B]\<rparr>"]
       failed_submit [OF t, of "\<lambda>q. Rejected Not_an_Error" "js ''timeout''"
         "initial_state\<lparr>result_stocks := [stock_B]\<rparr>"] t m
  show ?thesis by simp
qed

text \<open>
  C7: a non-blank submission suspends at the service call with the error reset, the former
  stocks and sources cleared and the loading flag set, and invokes the client once, with
  the query. When the call succeeds the returned stocks and sources are stored; when it
  fails an error message is stored; the loading flag is false once the part after the call
  has run, on whatever state it runs.
\<close>

theorem submit_lifecycle:
  assumes "trim q \<noteq> []"
  shows "(case handleSubmit_before_await q s of
            Awaiting q' s1 \<Rightarrow>
              q' = q \<and> error s1 = None \<and> result_stocks s1 = [] \<and> result_sources s1 = [] \<and> loading s1
          | Returned s' \<Rightarrow> False) \<and>
         snd (handleSubmit fetchPromisingStocks q s) = [q] \<and>
         (fetchPromisingStocks q = Fulfilled r \<longrightarrow>
            result_stocks (fst (handleSubmit fetchPromisingStocks q s)) = stocks r \<and>
            result_sources (fst (handleSubmit fetchPromisingStocks q s)) = sources r \<and>
            error (fst (handleSubmit fetchPromisingStocks q s)) = None) \<and>
         (fetchPromisingStocks q = Rejected x \<longrightarrow>
            error (fst (handleSubmit fetchPromisingStocks q s)) \<noteq> None) \<and>
         \<not> loading (fst (handleSubmit fetchPromisingStocks q s)) \<and>
         \<not> loading (handleSubmit_after_await outcome s2)"
  using assms
  by (simp add: handleSubmit_def handleSubmit_before_await_def handleSubmit_after_await_def
        split: settled.splits thrown.splits)

theorem submit_lifecycle_witness:
  "trim (js ''AI technology stocks'') \<noteq> [] \<and>
   handleSubmit_before_await (js ''AI technology stocks'')
       (initial_state\<lparr>result_stocks := [stock_B], error := Some (js ''old'')\<rparr>) =
     Awaiting (js ''AI technology stocks'') (initial_state\<lparr>loading := True\<rparr>) \<and>
   handleSubmit (\<lambda>q. Fulfilled sample_response) (js ''AI technology stocks'')
       (initial_state\<lparr>result_stocks := [stock_B], error := Some (js ''old'')\<rparr>) =
     (initial_state\<lparr>result_stocks := stocks sample_response,
                     result_sources := sources sample_response\<rparr>,
      [js ''AI technology stocks'']) \<and>
   \<not> loading (fst (handleSubmit (\<lambda>q. Rejected Not_an_Error) (js ''AI technology stocks'')
       (initial_state\<lparr>result_stocks := [stock_B], error := Some (js ''old'')\<rparr>)))"
proof -
  have t: "trim (js ''AI technology stocks'') \<noteq> []"
    by (simp add: trim_blank js_def is_white_space_def)
  let ?s = "initial_state\<lparr>result_stocks := [stock_B], error := Some (js ''old'')\<rparr>"
  have b: "handleSubmit_before_await (js ''AI technology stocks'') ?s =
      Awaiting (js ''AI technology stocks'') (initial_state\<lparr>loading := True\<rparr>)"
    using t by (simp add: handleSubmit_before_await_def initial_state_def)
  have f: "handleSubmit (\<lambda>q. Fulfilled sample_response) (js ''AI technology stocks'') ?s =
      (initial_state\<lparr>result_stocks := stocks sample_response,
                      result_sources := sources sample_response\<rparr>,
       [js ''AI technology stocks''])"
    by (simp add: handleSubmit_def b handleSubmit_after_await_def) (simp add: initial_state_def)
  from submit_lifecycle [OF t, of ?s "\<lambda>q. Rejected Not_an_Error"]
  have "\<not> loading (fst (handleSubmit (\<lambda>q. Rejected Not_an_Error) (js ''AI technology stocks'') ?s))"
    by blast
  with t b f show ?thesis by simp
qed

text \<open>
  C10: a non-blank submission has set the active view to the search view when it suspends at
  the service call, also when the watchlist view was active; a blank submission leaves the
  active view as it was.
\<close>

theorem submit_view:
  "(trim q \<noteq> [] \<longrightarrow>
      (case handleSubmit_before_await q s of
         Awaiting q' s1 \<Rightarrow> active_view s1 = Search
       | Returned s' \<Rightarrow> False) \<and>
      active_view (fst (handleSubmit fetchPromisingStocks q s)) = Search) \<and>
   (trim q = [] \<longrightarrow>
      active_view (fst (handleSubmit fetchPromisingStocks q s)) = active_view s \<and>
      snd (handleSubmit fetchPromisingStocks q s) = [])"
  by (simp add: handleSubmit_def handleSubmit_before_await_def handleSubmit_after_await_def
        split: settled.splits thrown.splits)

theorem submit_view_witness:
  "trim (js ''E-commerce giants'') \<noteq> [] \<and>
   handleSubmit_before_await (js ''E-commerce giants'') (initial_state\<lparr>active_view := Watchlist\<rparr>) =
     Awaiting (js ''E-commerce giants'') (initial_state\<lparr>loading := True\<rparr>) \<and>
   active_view (fst (handleSubmit (\<lambda>q. Fulfilled sample_response) (js ''E-commerce giants'')
                       (initial_state\<lparr>active_view := Watchlist\<rparr>))) = Search \<and>
   trim (js '' '') = [] \<and>
   active_view (fst (handleSubmit (\<lambda>q. Fulfilled sample_response) (js '' '')
                       (initial_state\<lparr>active_view := Watchlist\<rparr>))) = Watchlist"
proof -
  have t: "trim (js ''E-commerce giants'') \<noteq> []"
    by (simp add: trim_blank js_def is_white_space_def)
  have e: "trim (js '' '') = []"
    by (simp add: trim_blank js_def is_white_space_def)
  have b: "handleSubmit_before_await (js ''E-commerce giants'') (initial_state\<lparr>active_view := Watchlist\<rparr>) =
      Awaiting (js ''E-commerce giants'') (initial_state\<lparr>loading := True\<rparr>)"
    using t by (simp add: handleSubmit_before_await_def initial_state_def)
  from submit_view [of "js ''E-commerce giants''" "initial_state\<lparr>active_view := Watchlist\<rparr>"
         "\<lambda>q. Fulfilled sample_response"] t
  have v: "active_view (fst (handleSubmit (\<lambda>q. Fulfilled sample_response) (js ''E-commerce giants'')
                       (initial_state\<lparr>active_view := Watchlist\<rparr>))) = Search"
    by blast
  from submit_view [of "js '' ''" "initial_state\<lparr>active_view := Watchlist\<rparr>"
         "\<lambda>q. Fulfilled sample_response"] e
  have "active_view (fst (handleSubmit (\<lambda>q. Fulfilled sample_response) (js '' '')
                       (initial_state\<lparr>active_view := Watchlist\<rparr>))) = Watchlist"
    by simp
  with t e b v show ?thesis by simp
qed

section \<open>Startup from storage\<close>

text \<open>
  C8, as stated: whenever the stored data fails to parse, startup leaves the watchlist empty
  and logs the failure. It fails for the empty string: it does not parse, but the effect
  skips a falsy value before the parse, so nothing is logged.
\<close>

theorem empty_item_not_logged:
  "getItem (stored []) storage_key = Inr (Some []) \<and> JSON_parse [] = None \<and>
   mount (stored []) = Started \<lparr>state = initial_state, storage = stored (js ''[]''), console = []\<rparr> \<and>
   \<not> load_failure_logged \<lparr>state = initial_state, storage = stored (js ''[]''), console = []\<rparr>"
proof -
  have g: "getItem (stored []) storage_key = Inr (Some [])"
    by (simp add: getItem_def stored_def fresh_storage_def)
  have h: "hydrate (stored []) = (None, [])"
    by (simp add: hydrate_def hydrate_try_def g)
  have p: "persist [] (stored []) = (stored (js ''[]''), [])"
    by (simp add: persist_def setItem_def stored_def fresh_storage_def JSON_stringify_empty)
       (simp add: js_def storage_key_def)
  from mount_no_update [OF h] g show ?thesis
    by (simp add: p JSON_parse_empty load_failure_logged_def)
qed

text \<open>
  C8, amended: when the read of storage throws, or returns a non-empty string that fails to
  parse, startup completes with the initial state (empty watchlist, no error shown) and the
  failure is logged; when the read returns the empty string, startup completes with the
  initial state and no load failure is logged.
\<close>

theorem hydrate_failure:
  "(getItem st storage_key = Inl e \<or>
    (getItem st storage_key = Inr (Some text) \<and> text \<noteq> [] \<and> JSON_parse text = None) \<longrightarrow>
      (case mount st of
         Started w \<Rightarrow>
           state w = initial_state \<and> watchlist (state w) = [] \<and> error (state w) = None \<and>
           load_failure_logged w
       | Ill_typed v \<Rightarrow> False)) \<and>
   (getItem st storage_key = Inr (Some []) \<longrightarrow>
      (case mount st of
         Started w \<Rightarrow>
           state w = initial_state \<and> watchlist (state w) = [] \<and> error (state w) = None \<and>
           \<not> load_failure_logged w
       | Ill_typed v \<Rightarrow> False))"
proof (intro conjI impI)
  assume "getItem st storage_key = Inl e \<or>
    (getItem st storage_key = Inr (Some text) \<and> text \<noteq> [] \<and> JSON_parse text = None)"
  then obtain e' where "hydrate st = (None, [(js ''Could not load watchlist from localStorage'', e')])"
    by (auto simp: hydrate_def hydrate_try_def)
  from mount_no_update [OF this] show "case mount st of
         Started w \<Rightarrow>
           state w = initial_state \<and> watchlist (state w) = [] \<and> error (state w) = None \<and>
           load_failure_logged w
       | Ill_typed v \<Rightarrow> False"
    by (simp add: load_failure_logged_def) (simp add: initial_state_def)
next
  assume "getItem st storage_key = Inr (Some [])"
  then have "hydrate st = (None, [])"
    by (simp add: hydrate_def hydrate_try_def)
  from mount_no_update [OF this] show "case mount st of
         Started w \<Rightarrow>
           state w = initial_state \<and> watchlist (state w) = [] \<and> error (state w) = None \<and>
           \<not> load_failure_logged w
       | Ill_typed v \<Rightarrow> False"
    using snd_persist [of _ _ "[]" st] messages_differ
    by (auto simp: load_failure_logged_iff initial_state_def)
qed

theorem hydrate_failure_witness:
  "getItem (stored (js ''not json'')) storage_key = Inr (Some (js ''not json'')) \<and>
   js ''not json'' \<noteq> [] \<and> JSON_parse (js ''not json'') = None \<and>
   mount (stored (js ''not json'')) =
     Started \<lparr>state = initial_state, storage = stored (js ''[]''),
              console = [(js ''Could not load watchlist from localStorage'', SyntaxError)]\<rparr> \<and>
   load_failure_logged
     \<lparr>state = initial_state, storage = stored (js ''[]''),
      console = [(js ''Could not load watchlist from localStorage'', SyntaxError)]\<rparr> \<and>
   getItem (fresh_storage\<lparr>access_denied := True\<rparr>) storage_key = Inl SecurityError \<and>
   mount (fresh_storage\<lparr>access_denied := True\<rparr>) =
     Started \<lparr>state = initial_state, storage = fresh_storage\<lparr>access_denied := True\<rparr>,
              console = [(js ''Could not load watchlist from localStorage'', SecurityError),
                         (js ''Could not save watchlist to localStorage'', SecurityError)]\<rparr> \<and>
   load_failure_logged
     \<lparr>state = initial_state, storage = fresh_storage\<lparr>access_denied := True\<rparr>,
      console = [(js ''Could not load watchlist from localStorage'', SecurityError),
                 (js ''Could not save watchlist to localStorage'', SecurityError)]\<rparr>"
proof -
  let ?bad = "stored (js ''not json'')" and ?denied = "fresh_storage\<lparr>access_denied := True\<rparr>"
  have g: "getItem ?bad storage_key = Inr (Some (js ''not json''))"
    by (simp add: getItem_def stored_def fresh_storage_def)
  have n: "js ''not json'' \<noteq> []"
    by (simp add: js_def)
  have h: "hydrate ?bad = (None, [(js ''Could not load watchlist from localStorage'', SyntaxError)])"
    by (simp add: hydrate_def hydrate_try_def g n JSON_parse_not_json)
  have p: "persist [] ?bad = (stored (js ''[]''), [])"
    by (simp add: persist_def setItem_def stored_def fresh_storage_def JSON_stringify_empty)
       (simp add: js_def storage_key_def)
  have m: "mount ?bad =
     Started \<lparr>state = initial_state, storage = stored (js ''[]''),
              console = [(js ''Could not load watchlist from localStorage'', SyntaxError)]\<rparr>"
    using mount_no_update [OF h] by (simp add: p)
  have g': "getItem ?denied storage_key = Inl SecurityError"
    by (simp add: getItem_def)
  have h': "hydrate ?denied = (None, [(js ''Could not load watchlist from localStorage'', SecurityError)])"
    by (simp add: hydrate_def hydrate_try_def g')
  have p': "persist [] ?denied = (?denied, [(js ''Could not save watchlist to localStorage'', SecurityError)])"
    by (simp add: persist_def setItem_def)
  have m': "mount ?denied =
     Started \<lparr>state = initial_state, storage = ?denied,
              console = [(js ''Could not load watchlist from localStorage'', SecurityError),
                         (js ''Could not save watchlist to localStorage'', SecurityError)]\<rparr>"
    using mount_no_update [OF h'] by (simp add: p')
  from hydrate_failure [of ?bad SyntaxError "js ''not json''"] g n JSON_parse_not_json
  have l: "load_failure_logged
     \<lparr>state = initial_state, storage = stored (js ''[]''),
      console = [(js ''Could not load watchlist from localStorage'', SyntaxError)]\<rparr>"
    by (simp add: m)
  from hydrate_failure [of ?denied SecurityError "[]"] g'
  have l': "load_failure_logged
     \<lparr>state = initial_state, storage = ?denied,
      console = [(js ''Could not load watchlist from localStorage'', SecurityError),
                 (js ''Could not save watchlist to localStorage'', SecurityError)]\<rparr>"
    by (simp add: m')
  from g n JSON_parse_not_json m l g' m' l' show ?thesis
    by (intro conjI)
qed

text \<open>
  C9: when persisting a watchlist has written it to storage, a startup from that storage
  hydrates the same watchlist, logs nothing and leaves the stored text as it is.
\<close>

theorem persist_hydrate_round_trip:
  assumes "persist w st = (st', [])"
  shows "mount st' = Started \<lparr>state = initial_state\<lparr>watchlist := w\<rparr>, storage = st', console = []\<rparr>"
  using assms by (simp add: persist_ok mount_after_write)

theorem persist_hydrate_round_trip_witness:
  "persist [stock_A, stock_B] fresh_storage = (stored sample_text, []) \<and>
   mount (stored sample_text) =
     Started \<lparr>state = initial_state\<lparr>watchlist := [stock_A, stock_B]\<rparr>,
              storage = stored sample_text, console = []\<rparr>"
  using persist_hydrate_round_trip [OF persist_sample] persist_sample by simp

end
